theory Spec2Isabelle
  imports Complex_Main "HOL-Library.Word"
begin

section \<open>The useWebRTC hook of the drop frontend\<close>

text \<open>
  The hook keeps React state (\<open>useState\<close>) and mutable references (\<open>useRef\<close>); its
  callbacks read and write both.  The model is one record holding all of them, and every
  callback is a function from the record to the updated record.  The browser objects the
  hook talks to (the data channel, the peer connection, the interval timers, the relay
  reached through \<open>fetch\<close>) are kept as far as the hook can observe them.
\<close>

subsection \<open>Values\<close>

type_synonym byte = "8 word"
type_synonym bytes = "byte list"

text \<open>
  JavaScript numbers that the hook computes by division.  Sizes and byte counts are
  non-negative integers; the quotient \<open>transferredSize / totalSize\<close> is kept exact
  (the rounding of IEEE doubles is not modelled), and a zero divisor gives what
  JavaScript gives: \<open>0 / 0\<close> is NaN and \<open>n / 0\<close> is Infinity for \<open>n > 0\<close>.
\<close>

datatype js_number = NaN | Infinity | Finite rat

definition js_div :: "nat \<Rightarrow> nat \<Rightarrow> js_number" where
  "js_div a b =
     (if b = 0 then (if a = 0 then NaN else Infinity)
      else Finite (of_nat a / of_nat b))"

fun js_times :: "js_number \<Rightarrow> nat \<Rightarrow> js_number" where
  "js_times NaN k = NaN"
| "js_times Infinity k = (if k = 0 then NaN else Infinity)"
| "js_times (Finite q) k = Finite (q * of_nat k)"

text \<open>
  A string on the wire is only ever handed to \<open>JSON.parse\<close>, and every string the hook
  sends comes from \<open>JSON.stringify\<close>.  A string is therefore modelled by what
  \<open>JSON.parse\<close> makes of it: it throws (\<open>Malformed\<close>) or returns a value, and
  \<open>JSON.stringify v\<close> is the text \<open>Json v\<close>.  The values of the model are:
  \<open>null\<close> (\<open>JNull\<close>); an object whose \<open>type\<close> field is the string \<open>metadata\<close> and
  whose \<open>name\<close>, \<open>size\<close> and \<open>mimeType\<close> have the types the hook declares for them,
  a string, a non-negative integer and a string (\<open>JMetadata\<close>); and a value that is not
  an object with \<open>type\<close> field \<open>metadata\<close>, that is a number, a string, a boolean, an
  array, or an object with another \<open>type\<close> field or none (\<open>JOther\<close>, with a label to
  tell such values apart).  An object with \<open>type\<close> field \<open>metadata\<close> whose other fields
  are missing or have other types is not a value of the model: the hook checks the
  \<open>type\<close> field only and would start a record with the fields as they are, and what
  it does with them afterwards depends on how JavaScript coerces them.
\<close>

datatype js_value = JNull | JMetadata string nat string | JOther string

datatype json_text = Malformed | Json js_value

text \<open>What \<open>channel.onmessage\<close> can deliver: a string, an ArrayBuffer, or anything else (a Blob).\<close>

datatype channel_data = StringData json_text | ArrayBufferData bytes | OtherData

record File =
  file_name :: string
  file_type :: string
  file_bytes :: bytes

definition file_size :: "File \<Rightarrow> nat" where
  "file_size f = length (file_bytes f)"

text \<open>\<open>file.slice(start, end)\<close> followed by \<open>readAsArrayBuffer\<close>: the bytes from \<open>start\<close> up to \<open>end\<close>, clipped to the file.\<close>

definition file_slice :: "File \<Rightarrow> nat \<Rightarrow> nat \<Rightarrow> bytes" where
  "file_slice f start end = take (end - start) (drop start (file_bytes f))"

record FileTransferProgress =
  fileName :: string
  progress :: js_number
  totalSize :: nat
  transferredSize :: nat
  isReceiving :: bool

record ReceivedFile =
  received_name :: string
  received_size :: nat
  received_mimeType :: string
  received_data :: bytes

record ReceivingFile =
  rf_name :: string
  rf_size :: nat
  rf_mimeType :: string
  rf_receivedSize :: nat
  rf_chunks :: "bytes list"

record SignalingMessage =
  message_type :: string
  payload :: json_text

subsection \<open>Browser objects\<close>

datatype RTCDataChannelState = Connecting | Open | Closing | Closed

text \<open>A data channel: its \<open>readyState\<close> and the messages handed to \<open>send\<close>, oldest first.\<close>

record RTCDataChannel =
  readyState :: RTCDataChannelState
  sent :: "channel_data list"

text \<open>\<open>channel.close()\<close> does nothing on a channel that is closing or closed.\<close>

definition channel_close :: "RTCDataChannel \<Rightarrow> RTCDataChannel" where
  "channel_close ch =
     (if readyState ch = Closing \<or> readyState ch = Closed then ch
      else ch\<lparr>readyState := Closing\<rparr>)"

record RTCPeerConnection =
  pc_closed :: bool
  remoteDescription :: "js_value option"
  localDescription :: "js_value option"
  remoteCandidates :: "js_value list"

definition new_RTCPeerConnection :: RTCPeerConnection where
  "new_RTCPeerConnection =
     \<lparr>pc_closed = False, remoteDescription = None, localDescription = None,
      remoteCandidates = []\<rparr>"

definition pc_close :: "RTCPeerConnection \<Rightarrow> RTCPeerConnection" where
  "pc_close pc = pc\<lparr>pc_closed := True\<rparr>"

text \<open>The handle \<open>setInterval\<close> returns (an object, so never falsy).\<close>

datatype Timeout = Timeout nat

datatype request = POST string SignalingMessage | GET string

subsection \<open>The state of the hook\<close>

text \<open>
  The first five fields are the \<open>useState\<close> cells, the next five the \<open>useRef\<close> cells.
  \<open>timers\<close> are the intervals alive in the runtime and \<open>nextTimer\<close> numbers the next one;
  \<open>requests\<close> lists the requests issued to the relay; \<open>progressUpdates\<close> lists every
  value passed to \<open>setTransferProgress\<close>, oldest first (the hook does not keep that
  list: it is there to speak about successive progress values).
\<close>

record hook =
  isConnected :: bool
  isConnecting :: bool
  transferProgress :: "FileTransferProgress option"
  error :: "string option"
  receivedFiles :: "ReceivedFile list"
  peerConnection :: "RTCPeerConnection option"
  dataChannel :: "RTCDataChannel option"
  sessionId :: "string option"
  pollingInterval :: "Timeout option"
  receivingFile :: "ReceivingFile option"
  timers :: "Timeout list"
  nextTimer :: nat
  requests :: "request list"
  progressUpdates :: "FileTransferProgress option list"

definition useWebRTC :: hook where
  "useWebRTC =
     \<lparr>isConnected = False, isConnecting = False, transferProgress = None, error = None,
      receivedFiles = [], peerConnection = None, dataChannel = None, sessionId = None,
      pollingInterval = None, receivingFile = None, timers = [], nextTimer = 0,
      requests = [], progressUpdates = []\<rparr>"

definition setTransferProgress :: "FileTransferProgress option \<Rightarrow> hook \<Rightarrow> hook" where
  "setTransferProgress p st =
     st\<lparr>transferProgress := p, progressUpdates := progressUpdates st @ [p]\<rparr>"

subsection \<open>Receiving: handleIncomingData\<close>

text \<open>
  \<open>completeFile.set(chunk, offset)\<close> on a Uint8Array: it overwrites the bytes from
  \<open>offset\<close> on, and throws a RangeError (\<open>None\<close>) when the chunk does not fit.
\<close>

definition uint8_set :: "bytes \<Rightarrow> bytes \<Rightarrow> nat \<Rightarrow> bytes option" where
  "uint8_set target chunk offset =
     (if offset + length chunk \<le> length target
      then Some (take offset target @ chunk @ drop (offset + length chunk) target)
      else None)"

text \<open>The loop \<open>for (const chunk of chunks) { completeFile.set(chunk, offset); offset += chunk.length }\<close>.\<close>

fun copy_chunks :: "bytes list \<Rightarrow> bytes \<Rightarrow> nat \<Rightarrow> bytes option" where
  "copy_chunks [] completeFile offset = Some completeFile"
| "copy_chunks (chunk # rest) completeFile offset =
     (case uint8_set completeFile chunk offset of
        None \<Rightarrow> None
      | Some completeFile' \<Rightarrow> copy_chunks rest completeFile' (offset + length chunk))"

text \<open>The buffer of \<open>chunks.reduce((sum, chunk) => sum + chunk.length, 0)\<close> zero bytes, then the loop.\<close>

definition combine :: "bytes list \<Rightarrow> bytes option" where
  "combine chunks =
     (let totalSize = foldl (\<lambda>sum chunk. sum + length chunk) 0 chunks
      in copy_chunks chunks (replicate totalSize 0) 0)"

text \<open>
  A string is parsed; a parse error, and the TypeError of reading \<open>.type\<close> of \<open>null\<close>, are
  caught and logged.  A value whose \<open>type\<close> is not \<open>metadata\<close> (\<open>JOther\<close>) fails the test
  \<open>metadata.type === 'metadata'\<close> and is passed over.  An ArrayBuffer is taken only
  while \<open>receivingFile.current\<close> is set.  Everything else falls through both branches.
\<close>

fun handleIncomingData :: "channel_data \<Rightarrow> hook \<Rightarrow> hook" where
  "handleIncomingData (StringData Malformed) st = st"
| "handleIncomingData (StringData (Json JNull)) st = st"
| "handleIncomingData (StringData (Json (JOther v))) st = st"
| "handleIncomingData (StringData (Json (JMetadata name size' mimeType))) st =
     setTransferProgress
       (Some \<lparr>fileName = name, progress = Finite 0, totalSize = size',
              transferredSize = 0, isReceiving = True\<rparr>)
       (st\<lparr>receivingFile :=
            Some \<lparr>rf_name = name, rf_size = size', rf_mimeType = mimeType,
                  rf_receivedSize = 0, rf_chunks = []\<rparr>\<rparr>)"
| "handleIncomingData (ArrayBufferData chunk) st =
     (case receivingFile st of
        None \<Rightarrow> st
      | Some rf0 \<Rightarrow>
          let rf = rf0\<lparr>rf_chunks := rf_chunks rf0 @ [chunk],
                       rf_receivedSize := rf_receivedSize rf0 + length chunk\<rparr>;
              progress' = js_times (js_div (rf_receivedSize rf) (rf_size rf)) 100;
              st1 = setTransferProgress
                      (Some \<lparr>fileName = rf_name rf, progress = progress',
                             totalSize = rf_size rf, transferredSize = rf_receivedSize rf,
                             isReceiving = True\<rparr>)
                      (st\<lparr>receivingFile := Some rf\<rparr>)
          in if rf_receivedSize rf \<ge> rf_size rf
             then (case combine (rf_chunks rf) of
                     None \<Rightarrow> st1
                   | Some completeFile \<Rightarrow>
                       (setTransferProgress None
                          (st1\<lparr>receivedFiles := receivedFiles st1 @
                                 [\<lparr>received_name = rf_name rf, received_size = rf_size rf,
                                   received_mimeType = rf_mimeType rf,
                                   received_data = completeFile\<rparr>]\<rparr>))
                       \<lparr>receivingFile := None\<rparr>)
             else st1)"
| "handleIncomingData OtherData st = st"

text \<open>The messages of a channel, delivered in order (\<open>channel.onmessage\<close> once for each).\<close>

definition deliver :: "channel_data list \<Rightarrow> hook \<Rightarrow> hook" where
  "deliver ms st = foldl (\<lambda>s m. handleIncomingData m s) st ms"

subsection \<open>Sending: sendFile\<close>

datatype js_error = Error string

definition CHUNK_SIZE :: nat where
  "CHUNK_SIZE = 16384"

text \<open>\<open>channel.send(data)\<close> throws an InvalidStateError (\<open>None\<close>) unless the channel is open.\<close>

definition channel_send :: "channel_data \<Rightarrow> RTCDataChannel \<Rightarrow> RTCDataChannel option" where
  "channel_send d ch =
     (if readyState ch = Open then Some (ch\<lparr>sent := sent ch @ [d]\<rparr>) else None)"

text \<open>
  \<open>reader.onload\<close>, with the variables \<open>offset\<close> and \<open>transferredSize\<close> of the enclosing
  call as arguments.  \<open>readNextChunk\<close> reads \<open>file.slice(offset, offset + CHUNK_SIZE)\<close>
  and the read ends in \<open>onload\<close> with that slice as \<open>reader.result\<close> (an ArrayBuffer,
  so truthy also when it is empty); the chain of reads is the recursion.  When the
  channel reference is unset nothing happens, and when \<open>send\<close> throws the callback ends
  there.
\<close>

function onload :: "File \<Rightarrow> nat \<Rightarrow> nat \<Rightarrow> hook \<Rightarrow> hook" where
  "onload file offset transferredSize' st =
     (case dataChannel st of
        None \<Rightarrow> st
      | Some ch \<Rightarrow>
          (case channel_send (ArrayBufferData (file_slice file offset (offset + CHUNK_SIZE))) ch of
             None \<Rightarrow> st
           | Some ch' \<Rightarrow>
               let transferred = transferredSize' + length (file_slice file offset (offset + CHUNK_SIZE));
                   progress' = js_times (js_div transferred (file_size file)) 100;
                   st1 = setTransferProgress
                           (Some \<lparr>fileName = file_name file, progress = progress',
                                  totalSize = file_size file, transferredSize = transferred,
                                  isReceiving = False\<rparr>)
                           (st\<lparr>dataChannel := Some ch'\<rparr>)
               in if offset + CHUNK_SIZE < file_size file
                  then onload file (offset + CHUNK_SIZE) transferred st1
                  else setTransferProgress None st1))"
  by pat_completeness auto
termination
  by (relation "measure (\<lambda>(file, offset, t, st). file_size file - offset)")
     (auto simp: CHUNK_SIZE_def)

text \<open>
  \<open>sendFile\<close> returns a promise: rejected with the error thrown (\<open>Inl\<close>), or fulfilled.
  The state is returned beside it in both cases; for a fulfilled promise it is the
  state when the chain of reads has ended.  No other event (the channel closing, a
  message arriving) is taken to happen between the reads.
\<close>

definition sendFile :: "File \<Rightarrow> hook \<Rightarrow> (js_error + unit) \<times> hook" where
  "sendFile file st =
     (case dataChannel st of
        None \<Rightarrow> (Inl (Error ''Data channel not ready''), st)
      | Some ch \<Rightarrow>
          if readyState ch \<noteq> Open then (Inl (Error ''Data channel not ready''), st)
          else
            let st1 = setTransferProgress
                        (Some \<lparr>fileName = file_name file, progress = Finite 0,
                               totalSize = file_size file, transferredSize = 0,
                               isReceiving = False\<rparr>)
                        st;
                metadata = JMetadata (file_name file) (file_size file) (file_type file)
            in (case channel_send (StringData (Json metadata)) ch of
                  None \<Rightarrow> (Inl (Error ''InvalidStateError''), st1)
                | Some ch' \<Rightarrow> (Inr (), onload file 0 0 (st1\<lparr>dataChannel := Some ch'\<rparr>))))"

subsection \<open>Signaling\<close>

text \<open>
  What the hook awaits from outside the repository.  The four negotiation calls of the
  peer connection either fulfil, with the connection as it is afterwards (or the answer
  created), or reject (\<open>None\<close>).  \<open>relay_ok url message\<close> tells whether the POST to the
  relay came back with \<open>response.ok\<close>; a failed request counts as not ok.
\<close>

record environment =
  setRemoteDescription :: "RTCPeerConnection \<Rightarrow> js_value \<Rightarrow> RTCPeerConnection option"
  createAnswer :: "RTCPeerConnection \<Rightarrow> js_value option"
  setLocalDescription :: "RTCPeerConnection \<Rightarrow> js_value \<Rightarrow> RTCPeerConnection option"
  addIceCandidate :: "RTCPeerConnection \<Rightarrow> js_value \<Rightarrow> RTCPeerConnection option"
  relay_ok :: "string \<Rightarrow> SignalingMessage \<Rightarrow> bool"

definition API_BASE :: string where
  "API_BASE = ''http://127.0.0.1:8080''"

text \<open>\<open>!sessionId.current\<close>: the reference is null or holds the empty string.\<close>

definition no_session :: "hook \<Rightarrow> bool" where
  "no_session st = (case sessionId st of None \<Rightarrow> True | Some s \<Rightarrow> s = [])"

definition sendSignalingMessage :: "environment \<Rightarrow> SignalingMessage \<Rightarrow> hook \<Rightarrow> hook" where
  "sendSignalingMessage env message st =
     (case sessionId st of
        None \<Rightarrow> st
      | Some sid \<Rightarrow>
          if sid = [] then st
          else
            let url = API_BASE @ ''/api/session/'' @ sid @ ''/signal/send'';
                st1 = st\<lparr>requests := requests st @ [POST url message]\<rparr>
            in if relay_ok env url message then st1
               else st1\<lparr>error := Some ''Failed to send signaling message''\<rparr>)"

text \<open>\<open>setInterval\<close> makes a new live interval; \<open>clearInterval\<close> ends the one given.\<close>

definition startPolling :: "hook \<Rightarrow> hook" where
  "startPolling st =
     (if no_session st then st
      else st\<lparr>pollingInterval := Some (Timeout (nextTimer st)),
              timers := timers st @ [Timeout (nextTimer st)],
              nextTimer := Suc (nextTimer st)\<rparr>)"

definition clearInterval :: "Timeout \<Rightarrow> hook \<Rightarrow> hook" where
  "clearInterval t st = st\<lparr>timers := removeAll t (timers st)\<rparr>"

definition handling_failed :: "hook \<Rightarrow> hook" where
  "handling_failed st = st\<lparr>error := Some ''Failed to handle signaling message''\<rparr>"

text \<open>
  The switch on \<open>message.message_type\<close> inside \<open>try\<close>.  Whatever throws or rejects ends in
  the \<open>catch\<close>, which sets the error; what the connection took before stays taken.
\<close>

definition handleSignalingMessage :: "environment \<Rightarrow> SignalingMessage \<Rightarrow> hook \<Rightarrow> hook" where
  "handleSignalingMessage env message st =
     (case peerConnection st of
        None \<Rightarrow> st
      | Some pc \<Rightarrow>
          if message_type message = ''offer'' then
            (case payload message of
               Malformed \<Rightarrow> handling_failed st
             | Json offer \<Rightarrow>
                 (case setRemoteDescription env pc offer of
                    None \<Rightarrow> handling_failed st
                  | Some pc1 \<Rightarrow>
                      (case createAnswer env pc1 of
                         None \<Rightarrow> handling_failed (st\<lparr>peerConnection := Some pc1\<rparr>)
                       | Some answer \<Rightarrow>
                           (case setLocalDescription env pc1 answer of
                              None \<Rightarrow> handling_failed (st\<lparr>peerConnection := Some pc1\<rparr>)
                            | Some pc2 \<Rightarrow>
                                sendSignalingMessage env
                                  \<lparr>message_type = ''answer'', payload = Json answer\<rparr>
                                  (st\<lparr>peerConnection := Some pc2\<rparr>)))))
          else if message_type message = ''answer'' then
            (case payload message of
               Malformed \<Rightarrow> handling_failed st
             | Json answerDesc \<Rightarrow>
                 (case setRemoteDescription env pc answerDesc of
                    None \<Rightarrow> handling_failed st
                  | Some pc1 \<Rightarrow> st\<lparr>peerConnection := Some pc1\<rparr>))
          else if message_type message = ''candidate'' then
            (case payload message of
               Malformed \<Rightarrow> handling_failed st
             | Json candidate \<Rightarrow>
                 (case addIceCandidate env pc candidate of
                    None \<Rightarrow> handling_failed st
                  | Some pc1 \<Rightarrow> st\<lparr>peerConnection := Some pc1\<rparr>))
          else st)"

text \<open>
  The loop of the polling callback over the messages that the relay returned:
  \<open>for (const message of messages) { await handleSignalingMessage(message) }\<close>.
\<close>

definition handleSignalingMessages :: "environment \<Rightarrow> SignalingMessage list \<Rightarrow> hook \<Rightarrow> hook" where
  "handleSignalingMessages env messages st =
     foldl (\<lambda>s message. handleSignalingMessage env message s) st messages"

subsection \<open>Sessions\<close>

definition initializePeerConnection :: "hook \<Rightarrow> hook" where
  "initializePeerConnection st = st\<lparr>peerConnection := Some new_RTCPeerConnection\<rparr>"

text \<open>
  Nothing inside the \<open>try\<close> of \<open>joinSession\<close> throws (the peer connection is built from a
  constant configuration), so the promise is always fulfilled with the code.
\<close>

definition joinSession :: "string \<Rightarrow> hook \<Rightarrow> (js_error + string) \<times> hook" where
  "joinSession code st =
     (Inr code,
      startPolling
        (initializePeerConnection
           (st\<lparr>isConnecting := True, error := None, sessionId := Some code\<rparr>)))"

definition cleanup :: "hook \<Rightarrow> hook" where
  "cleanup st =
     (let st1 = (case pollingInterval st of None \<Rightarrow> st | Some t \<Rightarrow> clearInterval t st);
          st2 = (case dataChannel st1 of
                   None \<Rightarrow> st1
                 | Some ch \<Rightarrow> st1\<lparr>dataChannel := Some (channel_close ch)\<rparr>);
          st3 = (case peerConnection st2 of
                   None \<Rightarrow> st2
                 | Some pc \<Rightarrow> st2\<lparr>peerConnection := Some (pc_close pc)\<rparr>);
          st4 = setTransferProgress None (st3\<lparr>isConnected := False, isConnecting := False\<rparr>)
      in st4\<lparr>receivedFiles := [], sessionId := None, receivingFile := None\<rparr>)"

subsection \<open>Auxiliary definitions\<close>

text \<open>The messages handed to the channel between two states of the hook.\<close>

definition emitted :: "hook \<Rightarrow> hook \<Rightarrow> channel_data list" where
  "emitted before after =
     (case (dataChannel before, dataChannel after) of
        (Some ch, Some ch') \<Rightarrow> drop (length (sent ch)) (sent ch')
      | _ \<Rightarrow> [])"

text \<open>The slices that the chain of reads started at \<open>offset\<close> produces, in order.\<close>

function file_chunks :: "File \<Rightarrow> nat \<Rightarrow> bytes list" where
  "file_chunks file offset =
     file_slice file offset (offset + CHUNK_SIZE) #
     (if offset + CHUNK_SIZE < file_size file then file_chunks file (offset + CHUNK_SIZE) else [])"
  by pat_completeness auto
termination
  by (relation "measure (\<lambda>(file, offset). file_size file - offset)")
     (auto simp: CHUNK_SIZE_def)

text \<open>
  Percentages: a finite number between 0 and 100.  A progress value is in order for a
  file of \<open>S\<close> bytes when it counts at most \<open>S\<close> bytes and shows their share of \<open>S\<close>.
\<close>

definition in_percent_range :: "js_number \<Rightarrow> bool" where
  "in_percent_range x = (case x of Finite q \<Rightarrow> 0 \<le> q \<and> q \<le> 100 | _ \<Rightarrow> False)"

definition progress_ok :: "nat \<Rightarrow> FileTransferProgress \<Rightarrow> bool" where
  "progress_ok S p =
     (totalSize p = S \<and> transferredSize p \<le> S \<and>
      progress p = js_times (js_div (transferredSize p) S) 100 \<and>
      in_percent_range (progress p))"

text \<open>
  A peer connection that behaves as browsers do: a closed connection rejects every call,
  and \<open>createAnswer\<close> and \<open>addIceCandidate\<close> reject while no remote description has been
  set.  The relay accepts every message.
\<close>

definition browser :: environment where
  "browser =
     \<lparr>setRemoteDescription =
        (\<lambda>pc d. if pc_closed pc then None else Some (pc\<lparr>remoteDescription := Some d\<rparr>)),
      createAnswer =
        (\<lambda>pc. if pc_closed pc \<or> remoteDescription pc = None then None
              else Some (JOther ''answer'')),
      setLocalDescription =
        (\<lambda>pc d. if pc_closed pc then None else Some (pc\<lparr>localDescription := Some d\<rparr>)),
      addIceCandidate =
        (\<lambda>pc c. if pc_closed pc \<or> remoteDescription pc = None then None
                else Some (pc\<lparr>remoteCandidates := remoteCandidates pc @ [c]\<rparr>)),
      relay_ok = (\<lambda>url message. True)\<rparr>"

subsection \<open>Example states\<close>

text \<open>A hook whose data channel is open, and one whose channel is still connecting.\<close>

definition open_channel :: RTCDataChannel where
  "open_channel = \<lparr>readyState = Open, sent = []\<rparr>"

definition sender_ready :: hook where
  "sender_ready = useWebRTC\<lparr>isConnected := True, dataChannel := Some open_channel\<rparr>"

definition not_yet_open :: hook where
  "not_yet_open = useWebRTC\<lparr>dataChannel := Some \<lparr>readyState = Connecting, sent = []\<rparr>\<rparr>"

definition empty_file :: File where
  "empty_file = \<lparr>file_name = ''empty.txt'', file_type = ''text/plain'', file_bytes = []\<rparr>"

definition small_file :: File where
  "small_file = \<lparr>file_name = ''a.txt'', file_type = ''text/plain'', file_bytes = [1, 2, 3]\<rparr>"

text \<open>
  A receiver that has joined a session; the same receiver after a candidate arrived
  before the offer, and after the offer arrived next.
\<close>

definition joined :: hook where
  "joined = snd (joinSession ''AB12CD'' useWebRTC)"

definition early_candidate :: hook where
  "early_candidate =
     handleSignalingMessage browser
       \<lparr>message_type = ''candidate'', payload = Json (JOther ''candidate 1'')\<rparr> joined"

definition offer_after_candidate :: hook where
  "offer_after_candidate =
     handleSignalingMessage browser
       \<lparr>message_type = ''offer'', payload = Json (JOther ''offer'')\<rparr> early_candidate"

text \<open>A receiver that joined and then got a candidate message that does not parse.\<close>

definition joined_failed :: hook where
  "joined_failed =
     handleSignalingMessage browser \<lparr>message_type = ''candidate'', payload = Malformed\<rparr>
       joined"

text \<open>A receiver that called \<open>joinSession\<close> twice.\<close>

definition joined_twice :: hook where
  "joined_twice = snd (joinSession ''AB12CD'' (snd (joinSession ''AB12CD'' useWebRTC)))"

text \<open>A receiver that has got a whole file of 2 bytes.\<close>

definition completed :: hook where
  "completed = deliver [StringData (Json (JMetadata ''a.txt'' 2 ''text/plain'')),
                        ArrayBufferData [1, 2]] useWebRTC"

text \<open>A receiver that has 2 of the 4 bytes of a file.\<close>

definition receiving :: hook where
  "receiving = deliver [StringData (Json (JMetadata ''a.txt'' 4 ''text/plain'')),
                        ArrayBufferData [1, 2]] useWebRTC"

section \<open>Properties\<close>

subsection \<open>Reassembly of the chunks\<close>

lemma foldl_lengths: "foldl (\<lambda>sum chunk. sum + length chunk) a cs = a + length (concat cs)"
  by (induction cs arbitrary: a) auto

lemma copy_chunks_concat:
  "offset + length (concat cs) \<le> length buf \<Longrightarrow>
   copy_chunks cs buf offset =
     Some (take offset buf @ concat cs @ drop (offset + length (concat cs)) buf)"
proof (induction cs arbitrary: buf offset)
  case Nil
  then show ?case by simp
next
  case (Cons c cs)
  let ?buf' = "take offset buf @ c @ drop (offset + length c) buf"
  from Cons.prems have fit: "offset + length c \<le> length buf" by simp
  then have set: "uint8_set buf c offset = Some ?buf'"
    by (simp add: uint8_set_def)
  from Cons.prems have len: "(offset + length c) + length (concat cs) \<le> length ?buf'"
    by simp
  have tk: "take (offset + length c) ?buf' = take offset buf @ c"
    using fit by simp
  have dr: "drop (offset + length c + length (concat cs)) ?buf'
            = drop (offset + length c + length (concat cs)) buf"
    using fit by (simp add: add.commute add.left_commute)
  show ?case
    using Cons.IH [OF len] set tk dr by (simp add: add.assoc)
qed

lemma combine_concat: "combine chunks = Some (concat chunks)"
  using copy_chunks_concat [of 0 chunks "replicate (length (concat chunks)) 0"]
  by (simp add: combine_def foldl_lengths)

subsection \<open>One message at a time\<close>

lemma deliver_Nil: "deliver [] st = st"
  by (simp add: deliver_def)

lemma deliver_Cons: "deliver (m # ms) st = deliver ms (handleIncomingData m st)"
  by (simp add: deliver_def)

lemma deliver_snoc: "deliver (ms @ [m]) st = handleIncomingData m (deliver ms st)"
  by (simp add: deliver_def)
lemma metadata_record:
  "receivingFile (handleIncomingData (StringData (Json (JMetadata n s m))) st) =
     Some \<lparr>rf_name = n, rf_size = s, rf_mimeType = m, rf_receivedSize = 0, rf_chunks = []\<rparr>"
  by (simp add: setTransferProgress_def)

lemma metadata_files:
  "receivedFiles (handleIncomingData (StringData (Json (JMetadata n s m))) st) = receivedFiles st"
  by (simp add: setTransferProgress_def)

text \<open>
  A chunk that arrives while a record is active either leaves the file incomplete or
  completes it; the two lemmas give the state after it in each case.
\<close>

lemma chunk_incomplete:
  assumes "receivingFile st = Some rf" "rf_receivedSize rf + length c < rf_size rf"
  shows "handleIncomingData (ArrayBufferData c) st =
         setTransferProgress
           (Some \<lparr>fileName = rf_name rf,
                  progress = js_times (js_div (rf_receivedSize rf + length c) (rf_size rf)) 100,
                  totalSize = rf_size rf, transferredSize = rf_receivedSize rf + length c,
                  isReceiving = True\<rparr>)
           (st\<lparr>receivingFile := Some (rf\<lparr>rf_chunks := rf_chunks rf @ [c],
                       rf_receivedSize := rf_receivedSize rf + length c\<rparr>)\<rparr>)"
  using assms by (simp add: Let_def)

lemma chunk_complete:
  assumes "receivingFile st = Some rf" "rf_size rf \<le> rf_receivedSize rf + length c"
  shows "handleIncomingData (ArrayBufferData c) st =
         (setTransferProgress None
           ((setTransferProgress
           (Some \<lparr>fileName = rf_name rf,
                  progress = js_times (js_div (rf_receivedSize rf + length c) (rf_size rf)) 100,
                  totalSize = rf_size rf, transferredSize = rf_receivedSize rf + length c,
                  isReceiving = True\<rparr>)
           (st\<lparr>receivingFile := Some (rf\<lparr>rf_chunks := rf_chunks rf @ [c],
                       rf_receivedSize := rf_receivedSize rf + length c\<rparr>)\<rparr>))
            \<lparr>receivedFiles := receivedFiles st @
               [\<lparr>received_name = rf_name rf, received_size = rf_size rf,
                 received_mimeType = rf_mimeType rf,
                 received_data = concat (rf_chunks rf) @ c\<rparr>]\<rparr>))\<lparr>receivingFile := None\<rparr>"
  using assms by (simp add: Let_def combine_concat setTransferProgress_def)

declare handleIncomingData.simps(4,5) [simp del]

lemma deliver_chunks_incomplete:
  "receivingFile st = Some rf \<Longrightarrow>
   cs = [] \<or> rf_receivedSize rf + length (concat cs) < rf_size rf \<Longrightarrow>
   receivingFile (deliver (map ArrayBufferData cs) st) =
     Some (rf\<lparr>rf_chunks := rf_chunks rf @ cs,
              rf_receivedSize := rf_receivedSize rf + length (concat cs)\<rparr>) \<and>
   receivedFiles (deliver (map ArrayBufferData cs) st) = receivedFiles st"
proof (induction cs arbitrary: st rf)
  case Nil
  then show ?case by (simp add: deliver_Nil)
next
  case (Cons c cs)
  let ?rf1 = "rf\<lparr>rf_chunks := rf_chunks rf @ [c],
                  rf_receivedSize := rf_receivedSize rf + length c\<rparr>"
  let ?st1 = "handleIncomingData (ArrayBufferData c) st"
  from Cons.prems have small: "rf_receivedSize rf + length c < rf_size rf" by simp
  have rec: "receivingFile ?st1 = Some ?rf1"
    by (simp add: chunk_incomplete [OF Cons.prems(1) small] setTransferProgress_def)
  have files: "receivedFiles ?st1 = receivedFiles st"
    by (simp add: chunk_incomplete [OF Cons.prems(1) small] setTransferProgress_def)
  from Cons.prems have rest: "cs = [] \<or> rf_receivedSize ?rf1 + length (concat cs) < rf_size ?rf1"
    by simp
  show ?case
    using Cons.IH [OF rec rest] files by (simp add: deliver_Cons add.assoc)
qed

subsection \<open>The send loop\<close>

declare file_chunks.simps [simp del]
declare onload.simps [simp del]

lemma onload_sent:
  "dataChannel st = Some ch \<Longrightarrow> readyState ch = Open \<Longrightarrow>
   dataChannel (onload f offset t st) =
     Some (ch\<lparr>sent := sent ch @ map ArrayBufferData (file_chunks f offset)\<rparr>)"
proof (induction f offset t st arbitrary: ch rule: onload.induct)
  case (1 f offset t st)
  let ?c = "file_slice f offset (offset + CHUNK_SIZE)"
  let ?ch' = "ch\<lparr>sent := sent ch @ [ArrayBufferData ?c]\<rparr>"
  have snd: "channel_send (ArrayBufferData ?c) ch = Some ?ch'"
    using "1.prems" by (simp add: channel_send_def)
  show ?case
  proof (cases "offset + CHUNK_SIZE < file_size f")
    case True
    let ?st1 = "setTransferProgress
                           (Some \<lparr>fileName = file_name f, progress = js_times (js_div (t + length ?c) (file_size f)) 100,
                                  totalSize = file_size f, transferredSize = t + length ?c,
                                  isReceiving = False\<rparr>)
                           (st\<lparr>dataChannel := Some ?ch'\<rparr>)"
    have dc: "dataChannel ?st1 = Some ?ch'" by (simp add: setTransferProgress_def)
    have op: "readyState ?ch' = Open" using "1.prems" by simp
    have ih: "dataChannel (onload f (offset + CHUNK_SIZE) (t + length ?c) ?st1)
               = Some (?ch'\<lparr>sent := sent ?ch' @ map ArrayBufferData (file_chunks f (offset + CHUNK_SIZE))\<rparr>)"
      using "1.IH" [OF "1.prems"(1) snd refl refl refl True dc op] .
    show ?thesis
      using True "1.prems"(1) snd ih
      by (subst onload.simps, subst file_chunks.simps) (simp add: Let_def)
  next
    case False
    show ?thesis
      using False "1.prems"(1) snd
      by (subst onload.simps, subst file_chunks.simps) (simp add: Let_def setTransferProgress_def)
  qed
qed

lemma slice_length:
  "length (file_slice f offset (offset + CHUNK_SIZE)) = min CHUNK_SIZE (file_size f - offset)"
  by (simp add: file_slice_def file_size_def)

lemma slice_append:
  "take offset (file_bytes f) @ file_slice f offset (offset + CHUNK_SIZE)
     = take (offset + CHUNK_SIZE) (file_bytes f)"
  by (simp add: file_slice_def take_add)

lemma deliver_file_chunks:
  "receivingFile rst = Some rf \<Longrightarrow> rf_size rf = file_size f \<Longrightarrow>
   rf_receivedSize rf = offset \<Longrightarrow> concat (rf_chunks rf) = take offset (file_bytes f) \<Longrightarrow>
   offset \<le> file_size f \<Longrightarrow>
   receivedFiles (deliver (map ArrayBufferData (file_chunks f offset)) rst) =
     receivedFiles rst @
       [\<lparr>received_name = rf_name rf, received_size = file_size f,
         received_mimeType = rf_mimeType rf, received_data = file_bytes f\<rparr>] \<and>
   receivingFile (deliver (map ArrayBufferData (file_chunks f offset)) rst) = None \<and>
   transferProgress (deliver (map ArrayBufferData (file_chunks f offset)) rst) = None"
proof (induction f offset arbitrary: rst rf rule: file_chunks.induct)
  case (1 f offset)
  let ?c = "file_slice f offset (offset + CHUNK_SIZE)"
  let ?st1 = "handleIncomingData (ArrayBufferData ?c) rst"
  show ?case
  proof (cases "offset + CHUNK_SIZE < file_size f")
    case True
    let ?rf1 = "rf\<lparr>rf_chunks := rf_chunks rf @ [?c],
                    rf_receivedSize := rf_receivedSize rf + length ?c\<rparr>"
    have len: "length ?c = CHUNK_SIZE"
      using True by (simp add: slice_length)
    have small: "rf_receivedSize rf + length ?c < rf_size rf"
      using True "1.prems" len by simp
    note step = chunk_incomplete [OF "1.prems"(1) small]
    have rec: "receivingFile ?st1 = Some ?rf1"
      by (simp add: step setTransferProgress_def)
    have files: "receivedFiles ?st1 = receivedFiles rst"
      by (simp add: step setTransferProgress_def)
    have sz: "rf_size ?rf1 = file_size f" using "1.prems" by simp
    have rs: "rf_receivedSize ?rf1 = offset + CHUNK_SIZE" using "1.prems" len by simp
    have cc: "concat (rf_chunks ?rf1) = take (offset + CHUNK_SIZE) (file_bytes f)"
      using "1.prems"(4) by (simp add: slice_append)
    have le: "offset + CHUNK_SIZE \<le> file_size f" using True by simp
    from "1.IH" [OF True rec sz rs cc le] files True show ?thesis
      by (subst (1 2 3) file_chunks.simps) (simp add: deliver_Cons)
  next
    case False
    have len: "length ?c = file_size f - offset"
      using False by (simp add: slice_length)
    have big: "rf_size rf \<le> rf_receivedSize rf + length ?c"
      using "1.prems" len by simp
    have all: "concat (rf_chunks rf) @ ?c = file_bytes f"
      using "1.prems"(4) False by (simp add: slice_append file_size_def)
    note step = chunk_complete [OF "1.prems"(1) big]
    show ?thesis
      using False "1.prems"(2) all
      by (subst (1 2 3) file_chunks.simps)
         (simp add: deliver_Cons deliver_Nil step setTransferProgress_def)
  qed
qed

lemma percent_ok:
  "0 < S \<Longrightarrow> t \<le> S \<Longrightarrow> in_percent_range (js_times (js_div t S) 100)"
proof -
  assume a: "0 < S" "t \<le> S"
  have le: "(of_nat t :: rat) \<le> of_nat S" using a by simp
  have pos: "(0::rat) < of_nat S" using a by simp
  have q1: "(of_nat t :: rat) / of_nat S \<le> 1" using le pos by (simp add: divide_le_eq_1)
  have q0: "(0::rat) \<le> of_nat t / of_nat S" by simp
  have "(of_nat t :: rat) / of_nat S * 100 \<le> 1 * 100"
    using q1 by (rule mult_right_mono) simp
  moreover have "(0::rat) \<le> of_nat t / of_nat S * 100"
    using q0 by (rule mult_nonneg_nonneg) simp
  ultimately show ?thesis using a
    unfolding js_div_def in_percent_range_def by (simp del: times_divide_eq_left)
qed

lemma percent_full: "0 < S \<Longrightarrow> js_times (js_div S S) 100 = Finite 100"
  by (simp add: js_div_def)

lemma onload_progress:
  "dataChannel st = Some ch \<Longrightarrow> readyState ch = Open \<Longrightarrow> 0 < file_size f \<Longrightarrow>
   offset \<le> file_size f \<Longrightarrow> t = offset \<Longrightarrow>
   \<exists>ps. progressUpdates (onload f offset t st) = progressUpdates st @ map Some ps @ [None] \<and>
        ps \<noteq> [] \<and> (\<forall>p \<in> set ps. progress_ok (file_size f) p \<and> t \<le> transferredSize p) \<and>
        sorted (map transferredSize ps) \<and>
        progress (last ps) = Finite 100"
proof (induction f offset t st arbitrary: ch rule: onload.induct)
  case (1 f offset t st)
  let ?c = "file_slice f offset (offset + CHUNK_SIZE)"
  let ?ch' = "ch\<lparr>sent := sent ch @ [ArrayBufferData ?c]\<rparr>"
  let ?p = "\<lparr>fileName = file_name f, progress = js_times (js_div (t + length ?c) (file_size f)) 100,
             totalSize = file_size f, transferredSize = t + length ?c, isReceiving = False\<rparr>"
  let ?st1 = "setTransferProgress (Some ?p) (st\<lparr>dataChannel := Some ?ch'\<rparr>)"
  have snd: "channel_send (ArrayBufferData ?c) ch = Some ?ch'"
    using "1.prems" by (simp add: channel_send_def)
  have le: "t + length ?c \<le> file_size f"
    using "1.prems" by (simp add: slice_length)
  have ok: "progress_ok (file_size f) ?p"
    using "1.prems"(3) le by (simp add: progress_ok_def percent_ok)
  show ?case
  proof (cases "offset + CHUNK_SIZE < file_size f")
    case True
    have len: "t + length ?c = offset + CHUNK_SIZE"
      using True "1.prems" by (simp add: slice_length)
    have dc: "dataChannel ?st1 = Some ?ch'" by (simp add: setTransferProgress_def)
    have op: "readyState ?ch' = Open" using "1.prems" by simp
    have le': "offset + CHUNK_SIZE \<le> file_size f" using True by simp
    from "1.IH" [OF "1.prems"(1) snd refl refl refl True dc op "1.prems"(3) le' len]
    obtain ps where ps:
      "progressUpdates (onload f (offset + CHUNK_SIZE) (t + length ?c) ?st1)
         = progressUpdates ?st1 @ map Some ps @ [None]"
      "ps \<noteq> []"
      "\<forall>p \<in> set ps. progress_ok (file_size f) p \<and> t + length ?c \<le> transferredSize p"
      "sorted (map transferredSize ps)" "progress (last ps) = Finite 100"
      by blast
    have run: "onload f offset t st = onload f (offset + CHUNK_SIZE) (t + length ?c) ?st1"
      using True "1.prems"(1) snd by (subst onload.simps) (simp add: Let_def)
    have "progressUpdates (onload f offset t st) = progressUpdates st @ map Some (?p # ps) @ [None]"
      using ps(1) by (simp add: run setTransferProgress_def)
    moreover have "\<forall>p \<in> set (?p # ps). progress_ok (file_size f) p \<and> t \<le> transferredSize p"
      using ok ps(3) by auto
    moreover have "sorted (map transferredSize (?p # ps))"
      using ps(3,4) by auto
    moreover have "progress (last (?p # ps)) = Finite 100"
      using ps(2,5) by simp
    moreover have "?p # ps \<noteq> []" by simp
    ultimately show ?thesis by blast
  next
    case False
    have len: "t + length ?c = file_size f"
      using False "1.prems" by (simp add: slice_length)
    have run: "onload f offset t st = setTransferProgress None ?st1"
      using False "1.prems"(1) snd by (subst onload.simps) (simp add: Let_def)
    have "progressUpdates (onload f offset t st) = progressUpdates st @ map Some [?p] @ [None]"
      by (simp add: run setTransferProgress_def)
    moreover have "\<forall>p \<in> set [?p]. progress_ok (file_size f) p \<and> t \<le> transferredSize p"
      using ok by simp
    moreover have "progress (last [?p]) = Finite 100"
      using "1.prems"(3) by (simp add: len percent_full)
    moreover have "sorted (map transferredSize [?p])" by simp
    moreover have "[?p] \<noteq> []" by simp
    ultimately show ?thesis by blast
  qed
qed


section \<open>The claims\<close>

subsection \<open>C1: a file sent is the file received\<close>

text \<open>
  C1.  Let the channel of the sender be open.  Then \<open>sendFile\<close> succeeds, and when the
  messages it put on the channel (the metadata, then the slices of at most 16384 bytes
  in the order sent) are delivered to \<open>handleIncomingData\<close> of any receiver, exactly one
  entry is appended to \<open>receivedFiles\<close>: it has the name, the size and the type of the
  file and, as data, the bytes of the file.  The receive record and the progress are
  cleared afterwards.  This holds for a file of any size, the empty file included.
\<close>

theorem sendFile_roundtrip:
  assumes "dataChannel sender = Some ch" and "readyState ch = Open"
  shows "fst (sendFile f sender) = Inr () \<and>
         emitted sender (snd (sendFile f sender)) =
           StringData (Json (JMetadata (file_name f) (file_size f) (file_type f))) #
           map ArrayBufferData (file_chunks f 0) \<and>
         receivedFiles (deliver (emitted sender (snd (sendFile f sender))) receiver) =
           receivedFiles receiver @
             [\<lparr>received_name = file_name f, received_size = file_size f,
               received_mimeType = file_type f, received_data = file_bytes f\<rparr>] \<and>
         receivingFile (deliver (emitted sender (snd (sendFile f sender))) receiver) = None \<and>
         transferProgress (deliver (emitted sender (snd (sendFile f sender))) receiver) = None"
proof -
  let ?meta = "StringData (Json (JMetadata (file_name f) (file_size f) (file_type f)))"
  let ?ch1 = "ch\<lparr>sent := sent ch @ [?meta]\<rparr>"
  let ?st1 = "(setTransferProgress
                 (Some \<lparr>fileName = file_name f, progress = Finite 0,
                        totalSize = file_size f, transferredSize = 0,
                        isReceiving = False\<rparr>) sender)\<lparr>dataChannel := Some ?ch1\<rparr>"
  have run: "sendFile f sender = (Inr (), onload f 0 0 ?st1)"
    using assms by (simp add: sendFile_def channel_send_def Let_def)
  have "dataChannel ?st1 = Some ?ch1" "readyState ?ch1 = Open"
    using assms by simp_all
  from onload_sent [OF this]
  have out: "dataChannel (onload f 0 0 ?st1) =
               Some (?ch1\<lparr>sent := sent ?ch1 @ map ArrayBufferData (file_chunks f 0)\<rparr>)" .
  have em: "emitted sender (snd (sendFile f sender)) =
              ?meta # map ArrayBufferData (file_chunks f 0)"
    using assms(1) by (simp add: emitted_def run out)
  let ?r1 = "handleIncomingData ?meta receiver"
  let ?rf = "\<lparr>rf_name = file_name f, rf_size = file_size f, rf_mimeType = file_type f,
              rf_receivedSize = 0, rf_chunks = []\<rparr>"
  have "receivingFile ?r1 = Some ?rf" by (rule metadata_record)
  from deliver_file_chunks [OF this, of f 0]
  have "receivedFiles (deliver (map ArrayBufferData (file_chunks f 0)) ?r1) =
          receivedFiles ?r1 @
            [\<lparr>received_name = file_name f, received_size = file_size f,
              received_mimeType = file_type f, received_data = file_bytes f\<rparr>] \<and>
        receivingFile (deliver (map ArrayBufferData (file_chunks f 0)) ?r1) = None \<and>
        transferProgress (deliver (map ArrayBufferData (file_chunks f 0)) ?r1) = None"
    by simp
  then have "receivedFiles (deliver (?meta # map ArrayBufferData (file_chunks f 0)) receiver) =
          receivedFiles receiver @
            [\<lparr>received_name = file_name f, received_size = file_size f,
              received_mimeType = file_type f, received_data = file_bytes f\<rparr>] \<and>
        receivingFile (deliver (?meta # map ArrayBufferData (file_chunks f 0)) receiver) = None \<and>
        transferProgress (deliver (?meta # map ArrayBufferData (file_chunks f 0)) receiver) = None"
    by (simp add: deliver_Cons metadata_files)
  moreover have "fst (sendFile f sender) = Inr ()"
    by (simp add: run)
  ultimately show ?thesis
    unfolding em by simp
qed

theorem sendFile_roundtrip_witness:
  "dataChannel sender_ready = Some open_channel \<and> readyState open_channel = Open \<and>
   fst (sendFile small_file sender_ready) = Inr () \<and>
   receivedFiles (deliver (emitted sender_ready (snd (sendFile small_file sender_ready))) useWebRTC) =
     [\<lparr>received_name = ''a.txt'', received_size = 3, received_mimeType = ''text/plain'',
       received_data = [1, 2, 3]\<rparr>]"
proof -
  have ch: "dataChannel sender_ready = Some open_channel"
    by (simp add: sender_ready_def)
  have op: "readyState open_channel = Open"
    by (simp add: open_channel_def)
  from sendFile_roundtrip [OF ch op, of small_file useWebRTC]
  have "fst (sendFile small_file sender_ready) = Inr ()"
    and "receivedFiles (deliver (emitted sender_ready (snd (sendFile small_file sender_ready))) useWebRTC) =
          receivedFiles useWebRTC @
            [\<lparr>received_name = file_name small_file, received_size = file_size small_file,
              received_mimeType = file_type small_file, received_data = file_bytes small_file\<rparr>]"
    by blast+
  then show ?thesis
    using ch op by (simp add: useWebRTC_def small_file_def file_size_def)
qed

subsection \<open>C2: when a received file is handed over\<close>

text \<open>
  C2, as the code has it.  After the metadata of a file declared with \<open>s\<close> bytes, as long
  as no chunk has come yet or the chunks received have fewer than \<open>s\<close> bytes together,
  \<open>receivedFiles\<close> is what it was before.  The next chunk appends the file exactly when
  it brings the count to \<open>s\<close> or beyond (the test is \<open>receivedSize >= size\<close>), and the
  data of the file are then all the bytes received, which may be more than \<open>s\<close>.
\<close>

theorem receivedFiles_after_chunks:
  assumes "cs = [] \<or> length (concat cs) < s"
  shows "receivedFiles (deliver (StringData (Json (JMetadata n s m)) # map ArrayBufferData cs) st)
           = receivedFiles st
       \<and> receivedFiles (deliver (StringData (Json (JMetadata n s m)) # map ArrayBufferData (cs @ [c])) st)
           = (if s \<le> length (concat cs) + length c
              then receivedFiles st @
                   [\<lparr>received_name = n, received_size = s, received_mimeType = m,
                     received_data = concat cs @ c\<rparr>]
              else receivedFiles st)"
proof -
  let ?st0 = "handleIncomingData (StringData (Json (JMetadata n s m))) st"
  let ?rf0 = "\<lparr>rf_name = n, rf_size = s, rf_mimeType = m, rf_receivedSize = 0, rf_chunks = []\<rparr>"
  let ?st1 = "deliver (map ArrayBufferData cs) ?st0"
  let ?rf1 = "?rf0\<lparr>rf_chunks := rf_chunks ?rf0 @ cs,
                    rf_receivedSize := rf_receivedSize ?rf0 + length (concat cs)\<rparr>"
  have small: "cs = [] \<or> rf_receivedSize ?rf0 + length (concat cs) < rf_size ?rf0"
    using assms by simp
  note pre = deliver_chunks_incomplete [OF metadata_record small, of st]
  from pre have rec: "receivingFile ?st1 = Some ?rf1" by simp
  from pre have files: "receivedFiles ?st1 = receivedFiles st" by (simp add: metadata_files)
  have last: "receivedFiles (handleIncomingData (ArrayBufferData c) ?st1)
           = (if s \<le> length (concat cs) + length c
              then receivedFiles st @
                   [\<lparr>received_name = n, received_size = s, received_mimeType = m,
                     received_data = concat cs @ c\<rparr>]
              else receivedFiles st)"
  proof (cases "s \<le> length (concat cs) + length c")
    case True
    then have "rf_size ?rf1 \<le> rf_receivedSize ?rf1 + length c" by simp
    from chunk_complete [OF rec this] files True show ?thesis
      by (simp add: setTransferProgress_def)
  next
    case False
    then have "rf_receivedSize ?rf1 + length c < rf_size ?rf1" by simp
    from chunk_incomplete [OF rec this] files False show ?thesis
      by (simp add: setTransferProgress_def)
  qed
  have split: "deliver (StringData (Json (JMetadata n s m)) # map ArrayBufferData (cs @ [c])) st
        = handleIncomingData (ArrayBufferData c) ?st1"
    using deliver_snoc [of "StringData (Json (JMetadata n s m)) # map ArrayBufferData cs" "ArrayBufferData c" st]
    by (simp add: deliver_Cons)
  show ?thesis
    using files last split by (simp add: deliver_Cons)
qed

theorem receivedFiles_after_chunks_witness:
  "([[1, 2], [3 :: byte]] = [] \<or> length (concat [[1, 2], [3 :: byte]]) < 5) \<and>
   receivedFiles
     (deliver (StringData (Json (JMetadata ''a.txt'' 5 ''text/plain'')) #
               map ArrayBufferData [[1, 2], [3]]) useWebRTC) = [] \<and>
   receivedFiles
     (deliver (StringData (Json (JMetadata ''a.txt'' 5 ''text/plain'')) #
               map ArrayBufferData ([[1, 2], [3]] @ [[4, 5]])) useWebRTC) =
     [\<lparr>received_name = ''a.txt'', received_size = 5, received_mimeType = ''text/plain'',
       received_data = [1, 2, 3, 4, 5]\<rparr>]"
  using receivedFiles_after_chunks
          [of "[[1, 2], [3]]" 5 "''a.txt''" "''text/plain''" useWebRTC "[4, 5]"]
  by (simp add: useWebRTC_def)

text \<open>
  C2 as stated fails: a file declared with 5 bytes is handed over when one chunk of 10
  bytes arrives, with all 10 bytes as its data.
\<close>

theorem receivedFiles_overshoot:
  "receivedFiles (deliver [StringData (Json (JMetadata ''a.txt'' 5 ''text/plain'')),
                           ArrayBufferData [1, 2, 3, 4, 5, 6, 7, 8, 9, 10]] useWebRTC) =
     [\<lparr>received_name = ''a.txt'', received_size = 5, received_mimeType = ''text/plain'',
       received_data = [1, 2, 3, 4, 5, 6, 7, 8, 9, 10]\<rparr>]"
  by (simp add: deliver_def handleIncomingData.simps setTransferProgress_def Let_def
      useWebRTC_def combine_concat)

subsection \<open>C3: sending on a channel that is not open\<close>

text \<open>
  C3.  When there is no data channel, or the channel is not open, \<open>sendFile\<close> fails with
  the error \<open>Data channel not ready\<close> and the state is the state before the call:
  nothing was put on the channel and the progress was not touched.
\<close>

theorem sendFile_channel_not_ready:
  assumes "dataChannel st = None \<or> (\<exists>ch. dataChannel st = Some ch \<and> readyState ch \<noteq> Open)"
  shows "sendFile f st = (Inl (Error ''Data channel not ready''), st)"
  using assms by (auto simp: sendFile_def)

theorem sendFile_channel_not_ready_witness:
  "sendFile small_file useWebRTC = (Inl (Error ''Data channel not ready''), useWebRTC) \<and>
   sendFile small_file not_yet_open = (Inl (Error ''Data channel not ready''), not_yet_open)"
  using sendFile_channel_not_ready [of useWebRTC small_file]
        sendFile_channel_not_ready [of not_yet_open small_file]
  by (simp add: useWebRTC_def not_yet_open_def)

subsection \<open>C4: progress values\<close>

text \<open>
  For a file that is not empty the progress values of a send are in order: \<open>sendFile\<close>
  sets the progress to a sequence of values and clears it after the last; every value
  counts at most the size of the file and shows transferred / total * 100, between 0
  and 100; the counts never decrease; the last value shows 100.
\<close>

lemma sendFile_progress_nonempty:
  assumes "dataChannel st = Some ch" and "readyState ch = Open" and "0 < file_size f"
  shows "\<exists>ps. progressUpdates (snd (sendFile f st)) = progressUpdates st @ map Some ps @ [None] \<and>
          ps \<noteq> [] \<and> (\<forall>p \<in> set ps. progress_ok (file_size f) p) \<and>
          sorted (map transferredSize ps) \<and> progress (last ps) = Finite 100"
proof -
  let ?meta = "StringData (Json (JMetadata (file_name f) (file_size f) (file_type f)))"
  let ?ch1 = "ch\<lparr>sent := sent ch @ [?meta]\<rparr>"
  let ?p0 = "\<lparr>fileName = file_name f, progress = Finite 0, totalSize = file_size f,
              transferredSize = 0, isReceiving = False\<rparr>"
  let ?st1 = "(setTransferProgress (Some ?p0) st)\<lparr>dataChannel := Some ?ch1\<rparr>"
  have run: "sendFile f st = (Inr (), onload f 0 0 ?st1)"
    using assms by (simp add: sendFile_def channel_send_def Let_def)
  have dc: "dataChannel ?st1 = Some ?ch1" and op: "readyState ?ch1 = Open"
    using assms by simp_all
  from onload_progress [OF dc op assms(3), of 0 0]
  obtain ps where ps:
    "progressUpdates (onload f 0 0 ?st1) = progressUpdates ?st1 @ map Some ps @ [None]"
    "ps \<noteq> []" "\<forall>p \<in> set ps. progress_ok (file_size f) p \<and> 0 \<le> transferredSize p"
    "sorted (map transferredSize ps)" "progress (last ps) = Finite 100"
    by auto
  have ok0: "progress_ok (file_size f) ?p0"
    using assms(3) by (simp add: progress_ok_def js_div_def in_percent_range_def)
  have "progressUpdates (snd (sendFile f st)) = progressUpdates st @ map Some (?p0 # ps) @ [None]"
    using ps(1) by (simp add: run setTransferProgress_def)
  moreover have "?p0 # ps \<noteq> []" by simp
  moreover have "\<forall>p \<in> set (?p0 # ps). progress_ok (file_size f) p"
    using ok0 ps(3) by simp
  moreover have "sorted (map transferredSize (?p0 # ps))"
    using ps(4) by simp
  moreover have "progress (last (?p0 # ps)) = Finite 100"
    using ps(2,5) by simp
  ultimately show ?thesis by blast
qed

text \<open>
  C4 at the empty file.  The sender sets the progress to 0, then to 0 / 0 * 100, which
  is NaN, and clears it; the receiver of the same messages does the same.  The last
  value before the progress is cleared is NaN and not 100.
\<close>

theorem empty_file_progress_NaN:
  "progressUpdates (snd (sendFile empty_file sender_ready)) =
     [Some \<lparr>fileName = ''empty.txt'', progress = Finite 0, totalSize = 0,
            transferredSize = 0, isReceiving = False\<rparr>,
      Some \<lparr>fileName = ''empty.txt'', progress = NaN, totalSize = 0,
            transferredSize = 0, isReceiving = False\<rparr>,
      None] \<and>
   progressUpdates (deliver (emitted sender_ready (snd (sendFile empty_file sender_ready))) useWebRTC) =
     [Some \<lparr>fileName = ''empty.txt'', progress = Finite 0, totalSize = 0,
            transferredSize = 0, isReceiving = True\<rparr>,
      Some \<lparr>fileName = ''empty.txt'', progress = NaN, totalSize = 0,
            transferredSize = 0, isReceiving = True\<rparr>,
      None]"
  apply (simp add: sendFile_def sender_ready_def open_channel_def useWebRTC_def channel_send_def Let_def)
  apply (subst (1 2) onload.simps)
  apply (simp add: empty_file_def file_size_def file_slice_def CHUNK_SIZE_def channel_send_def
      setTransferProgress_def Let_def js_div_def emitted_def deliver_def handleIncomingData.simps
      combine_concat)
  done

subsection \<open>C5: metadata in the middle of a file\<close>

text \<open>
  C5, as the code has it.  Metadata is never ignored: in any state, also while another
  file is being received, it replaces the receive record by a fresh one for the new
  file (no bytes, no chunks; what was received of the other file is gone) and sets the
  progress to 0 for the new file.  \<open>receivedFiles\<close>, the channel, the peer connection
  and the error are left as they were.
\<close>

theorem metadata_replaces_record:
  "receivingFile (handleIncomingData (StringData (Json (JMetadata n s m))) st) =
     Some \<lparr>rf_name = n, rf_size = s, rf_mimeType = m, rf_receivedSize = 0, rf_chunks = []\<rparr> \<and>
   transferProgress (handleIncomingData (StringData (Json (JMetadata n s m))) st) =
     Some \<lparr>fileName = n, progress = Finite 0, totalSize = s, transferredSize = 0,
           isReceiving = True\<rparr> \<and>
   receivedFiles (handleIncomingData (StringData (Json (JMetadata n s m))) st) = receivedFiles st \<and>
   dataChannel (handleIncomingData (StringData (Json (JMetadata n s m))) st) = dataChannel st \<and>
   peerConnection (handleIncomingData (StringData (Json (JMetadata n s m))) st) = peerConnection st \<and>
   error (handleIncomingData (StringData (Json (JMetadata n s m))) st) = error st"
  by (simp add: handleIncomingData.simps setTransferProgress_def)

text \<open>
  C5 as stated fails: a receiver that has 2 of the 4 bytes of \<open>a.txt\<close> gets the metadata
  of \<open>b.txt\<close>, and its record is then the fresh record of \<open>b.txt\<close>.
\<close>

theorem metadata_mid_receive_not_ignored:
  "receivingFile receiving =
     Some \<lparr>rf_name = ''a.txt'', rf_size = 4, rf_mimeType = ''text/plain'',
           rf_receivedSize = 2, rf_chunks = [[1, 2]]\<rparr> \<and>
   receivingFile (handleIncomingData (StringData (Json (JMetadata ''b.txt'' 9 ''text/plain''))) receiving) =
     Some \<lparr>rf_name = ''b.txt'', rf_size = 9, rf_mimeType = ''text/plain'',
           rf_receivedSize = 0, rf_chunks = []\<rparr>"
  by (simp add: receiving_def deliver_def handleIncomingData.simps setTransferProgress_def Let_def useWebRTC_def)

subsection \<open>C6: a chunk without metadata\<close>

text \<open>
  C6.  A binary message that arrives while no receive record is active leaves the whole
  state as it was.
\<close>

theorem chunk_without_record_ignored:
  "receivingFile st = None \<Longrightarrow> handleIncomingData (ArrayBufferData chunk) st = st"
  by (simp add: handleIncomingData.simps)

theorem chunk_without_record_ignored_witness:
  "receivingFile useWebRTC = None \<and>
   handleIncomingData (ArrayBufferData [1, 2, 3]) useWebRTC = useWebRTC \<and>
   receivingFile completed = None \<and>
   handleIncomingData (ArrayBufferData [1, 2, 3]) completed = completed"
proof -
  have fresh: "receivingFile useWebRTC = None"
    by (simp add: useWebRTC_def)
  have whole: "receivingFile completed = None"
    by (simp add: completed_def deliver_def handleIncomingData.simps setTransferProgress_def
        Let_def useWebRTC_def combine_concat)
  show ?thesis
    using fresh whole
      chunk_without_record_ignored [OF fresh, of "[1, 2, 3]"]
      chunk_without_record_ignored [OF whole, of "[1, 2, 3]"]
    by simp
qed

subsection \<open>C7: cleanup\<close>

lemma joined_eq:
  "joined = useWebRTC\<lparr>isConnecting := True, sessionId := Some ''AB12CD'',
     peerConnection := Some new_RTCPeerConnection, pollingInterval := Some (Timeout 0),
     timers := [Timeout 0], nextTimer := 1\<rparr>"
  by (simp add: joined_def joinSession_def startPolling_def no_session_def
      initializePeerConnection_def useWebRTC_def)

text \<open>
  C7, as the code has it.  \<open>cleanup\<close> is defined in every state.  After it the hook is
  neither connected nor connecting, there is no progress, no received file, no session
  id and no receive record; it starts no interval and the interval that
  \<open>pollingInterval\<close> holds is no longer live, so that no interval at all is live
  afterwards when none was live before but the one that \<open>pollingInterval\<close> holds.  The
  error is the error before.  A second \<open>cleanup\<close> changes nothing (it calls
  \<open>setTransferProgress(null)\<close> once more, which the list of progress updates records),
  and \<open>cleanup\<close> of the initial state is the initial state (with that one call
  recorded).
\<close>

theorem cleanup_resets:
  "isConnected (cleanup st) = False \<and> isConnecting (cleanup st) = False \<and>
   transferProgress (cleanup st) = None \<and> receivedFiles (cleanup st) = [] \<and>
   sessionId (cleanup st) = None \<and> receivingFile (cleanup st) = None \<and>
   set (timers (cleanup st)) \<subseteq> set (timers st) \<and>
   set_option (pollingInterval st) \<inter> set (timers (cleanup st)) = {} \<and>
   (set (timers st) \<subseteq> set_option (pollingInterval st) \<longrightarrow> timers (cleanup st) = []) \<and>
   error (cleanup st) = error st \<and>
   cleanup (cleanup st) = (cleanup st)\<lparr>progressUpdates := progressUpdates (cleanup st) @ [None]\<rparr> \<and>
   cleanup useWebRTC = useWebRTC\<lparr>progressUpdates := [None]\<rparr>"
proof -
  have stop: "timers (cleanup st) = []" if "set (timers st) \<subseteq> set_option (pollingInterval st)"
  proof (cases "pollingInterval st")
    case None
    with that show ?thesis
      by (simp add: cleanup_def Let_def setTransferProgress_def split: option.splits)
  next
    case (Some t)
    with that have "set (removeAll t (timers st)) = {}" by auto
    then have "removeAll t (timers st) = []" by (simp only: set_empty)
    with Some show ?thesis
      by (simp add: cleanup_def Let_def clearInterval_def setTransferProgress_def split: option.splits)
  qed
  have rest: "isConnected (cleanup st) = False \<and> isConnecting (cleanup st) = False \<and>
   transferProgress (cleanup st) = None \<and> receivedFiles (cleanup st) = [] \<and>
   sessionId (cleanup st) = None \<and> receivingFile (cleanup st) = None \<and>
   set (timers (cleanup st)) \<subseteq> set (timers st) \<and>
   set_option (pollingInterval st) \<inter> set (timers (cleanup st)) = {} \<and>
   error (cleanup st) = error st \<and>
   cleanup (cleanup st) = (cleanup st)\<lparr>progressUpdates := progressUpdates (cleanup st) @ [None]\<rparr> \<and>
   cleanup useWebRTC = useWebRTC\<lparr>progressUpdates := [None]\<rparr>"
    by (auto simp: cleanup_def Let_def clearInterval_def setTransferProgress_def channel_close_def
      pc_close_def useWebRTC_def split: option.splits)
  from stop rest show ?thesis by blast
qed

text \<open>
  After one \<open>joinSession\<close> the only live interval is the one that \<open>pollingInterval\<close>
  holds; there, and in the initial state, no interval is live after \<open>cleanup\<close>, once
  or twice.
\<close>

theorem cleanup_resets_witness:
  "set (timers joined) \<subseteq> set_option (pollingInterval joined) \<and>
   timers (cleanup joined) = [] \<and> timers (cleanup (cleanup joined)) = [] \<and>
   sessionId (cleanup (cleanup joined)) = None \<and>
   timers (cleanup useWebRTC) = []"
proof -
  have one: "set (timers joined) \<subseteq> set_option (pollingInterval joined)"
    by (simp add: joined_eq useWebRTC_def)
  have none: "set (timers useWebRTC) \<subseteq> set_option (pollingInterval useWebRTC)"
    by (simp add: useWebRTC_def)
  from cleanup_resets [of joined] one have first: "timers (cleanup joined) = []" by blast
  then have "set (timers (cleanup joined)) \<subseteq> set_option (pollingInterval (cleanup joined))"
    by simp
  with cleanup_resets [of "cleanup joined"]
  have second: "timers (cleanup (cleanup joined)) = []"
    and sid: "sessionId (cleanup (cleanup joined)) = None" by blast+
  from cleanup_resets [of useWebRTC] none have "timers (cleanup useWebRTC) = []" by blast
  with one first second sid show ?thesis by simp
qed

text \<open>
  C7 as stated fails, after two calls of \<open>cleanup\<close> in a row.  When a signaling message
  that does not parse has set the error, the error is still there.  When \<open>joinSession\<close>
  was called twice, the handle of the first interval was overwritten by the second, and
  the first interval is still live.
\<close>

theorem cleanup_twice_not_idle:
  "error (cleanup (cleanup joined_failed)) = Some ''Failed to handle signaling message'' \<and>
   pollingInterval joined_twice = Some (Timeout 1) \<and>
   timers joined_twice = [Timeout 0, Timeout 1] \<and>
   timers (cleanup (cleanup joined_twice)) = [Timeout 0]"
  by (simp add: joined_failed_def joined_twice_def joined_eq joinSession_def startPolling_def
      no_session_def initializePeerConnection_def useWebRTC_def handleSignalingMessage_def
      handling_failed_def cleanup_def Let_def clearInterval_def setTransferProgress_def
      pc_close_def new_RTCPeerConnection_def)

subsection \<open>C8: a candidate that arrives early\<close>

lemma handleSignalingMessages_Cons:
  "handleSignalingMessages env (m # ms) st =
   handleSignalingMessages env ms (handleSignalingMessage env m st)"
  by (simp add: handleSignalingMessages_def)

text \<open>\<open>handleSignalingMessage\<close> never reads the error, and never clears it.\<close>

lemma handleSignalingMessage_error_irrelevant:
  "(handleSignalingMessage env m (st\<lparr>error := e\<rparr>))\<lparr>error := None\<rparr> =
   (handleSignalingMessage env m st)\<lparr>error := None\<rparr>"
  by (simp add: handleSignalingMessage_def handling_failed_def sendSignalingMessage_def Let_def
      split: option.splits json_text.splits)

lemma handleSignalingMessage_error_kept:
  "error st \<noteq> None \<Longrightarrow> error (handleSignalingMessage env m st) \<noteq> None"
  by (simp add: handleSignalingMessage_def handling_failed_def sendSignalingMessage_def Let_def
      split: option.splits json_text.splits)

lemma handleSignalingMessages_error_kept:
  "error st \<noteq> None \<Longrightarrow> error (handleSignalingMessages env ms st) \<noteq> None"
proof (induction ms arbitrary: st)
  case Nil
  then show ?case by (simp add: handleSignalingMessages_def)
next
  case (Cons m ms)
  from Cons.prems have "error (handleSignalingMessage env m st) \<noteq> None"
    by (rule handleSignalingMessage_error_kept)
  then show ?case
    unfolding handleSignalingMessages_Cons by (rule Cons.IH)
qed

lemma handleSignalingMessages_error_irrelevant:
  "(handleSignalingMessages env ms (st\<lparr>error := e\<rparr>))\<lparr>error := None\<rparr> =
   (handleSignalingMessages env ms st)\<lparr>error := None\<rparr>"
proof (induction ms arbitrary: st e)
  case Nil
  then show ?case by (simp add: handleSignalingMessages_def)
next
  case (Cons m ms)
  let ?a = "handleSignalingMessage env m (st\<lparr>error := e\<rparr>)"
  let ?b = "handleSignalingMessage env m st"
  have "?a = (?a\<lparr>error := None\<rparr>)\<lparr>error := error ?a\<rparr>" by simp
  also have "\<dots> = (?b\<lparr>error := None\<rparr>)\<lparr>error := error ?a\<rparr>"
    by (simp only: handleSignalingMessage_error_irrelevant)
  also have "\<dots> = ?b\<lparr>error := error ?a\<rparr>" by simp
  finally have ab: "?a = ?b\<lparr>error := error ?a\<rparr>" .
  have "(handleSignalingMessages env ms ?a)\<lparr>error := None\<rparr> =
        (handleSignalingMessages env ms (?b\<lparr>error := error ?a\<rparr>))\<lparr>error := None\<rparr>"
    using ab by simp
  also have "\<dots> = (handleSignalingMessages env ms ?b)\<lparr>error := None\<rparr>"
    by (rule Cons.IH)
  finally show ?case
    unfolding handleSignalingMessages_Cons .
qed

text \<open>
  C8, as the code has it.  A candidate message whose payload parses is passed to
  \<open>addIceCandidate\<close> of the peer connection at once.  When the connection takes it, the
  connection is updated and the error is left as it was.  When the connection rejects
  it, the state keeps nothing of the candidate and the error is set to
  \<open>Failed to handle signaling message\<close>; then, whatever signaling messages are handled
  later, the peer connection is what it would have been had the candidate never come,
  and an error is still set.  The hook has no buffer for candidates.
\<close>

theorem candidate_applied_at_once:
  assumes "peerConnection st = Some pc" and "message_type message = ''candidate''"
    and "payload message = Json candidate"
  shows "handleSignalingMessage env message st =
           (case addIceCandidate env pc candidate of
              None \<Rightarrow> st\<lparr>error := Some ''Failed to handle signaling message''\<rparr>
            | Some pc' \<Rightarrow> st\<lparr>peerConnection := Some pc'\<rparr>) \<and>
         (addIceCandidate env pc candidate = None \<longrightarrow>
            peerConnection (handleSignalingMessages env later (handleSignalingMessage env message st)) =
              peerConnection (handleSignalingMessages env later st) \<and>
            error (handleSignalingMessages env later (handleSignalingMessage env message st)) \<noteq> None)"
proof -
  have step: "handleSignalingMessage env message st =
           (case addIceCandidate env pc candidate of
              None \<Rightarrow> st\<lparr>error := Some ''Failed to handle signaling message''\<rparr>
            | Some pc' \<Rightarrow> st\<lparr>peerConnection := Some pc'\<rparr>)"
    using assms by (simp add: handleSignalingMessage_def handling_failed_def split: option.splits)
  have later: "peerConnection (handleSignalingMessages env later (handleSignalingMessage env message st)) =
              peerConnection (handleSignalingMessages env later st) \<and>
            error (handleSignalingMessages env later (handleSignalingMessage env message st)) \<noteq> None"
    if rej: "addIceCandidate env pc candidate = None"
  proof -
    let ?e = "Some ''Failed to handle signaling message''"
    have st': "handleSignalingMessage env message st = st\<lparr>error := ?e\<rparr>"
      using step rej by simp
    have "peerConnection ((handleSignalingMessages env later (st\<lparr>error := ?e\<rparr>))\<lparr>error := None\<rparr>) =
          peerConnection ((handleSignalingMessages env later st)\<lparr>error := None\<rparr>)"
      by (simp only: handleSignalingMessages_error_irrelevant)
    then have pc: "peerConnection (handleSignalingMessages env later (st\<lparr>error := ?e\<rparr>)) =
          peerConnection (handleSignalingMessages env later st)"
      by simp
    have "error (st\<lparr>error := ?e\<rparr>) \<noteq> None" by simp
    then have "error (handleSignalingMessages env later (st\<lparr>error := ?e\<rparr>)) \<noteq> None"
      by (rule handleSignalingMessages_error_kept)
    with pc show ?thesis by (simp add: st')
  qed
  from step later show ?thesis by blast
qed

theorem candidate_applied_at_once_witness:
  "peerConnection joined = Some new_RTCPeerConnection \<and>
   addIceCandidate browser new_RTCPeerConnection (JOther ''candidate 1'') = None \<and>
   handleSignalingMessage browser
     \<lparr>message_type = ''candidate'', payload = Json (JOther ''candidate 1'')\<rparr> joined =
   joined\<lparr>error := Some ''Failed to handle signaling message''\<rparr> \<and>
   peerConnection offer_after_candidate =
     peerConnection (handleSignalingMessages browser
        [\<lparr>message_type = ''offer'', payload = Json (JOther ''offer'')\<rparr>] joined) \<and>
   error offer_after_candidate \<noteq> None"
proof -
  let ?c = "\<lparr>message_type = ''candidate'', payload = Json (JOther ''candidate 1'')\<rparr>"
  let ?o = "\<lparr>message_type = ''offer'', payload = Json (JOther ''offer'')\<rparr>"
  have pc: "peerConnection joined = Some new_RTCPeerConnection"
    by (simp add: joined_eq useWebRTC_def)
  have rej: "addIceCandidate browser new_RTCPeerConnection (JOther ''candidate 1'') = None"
    by (simp add: browser_def new_RTCPeerConnection_def)
  have after: "offer_after_candidate =
      handleSignalingMessages browser [?o] (handleSignalingMessage browser ?c joined)"
    by (simp add: offer_after_candidate_def early_candidate_def handleSignalingMessages_def)
  have mt: "message_type ?c = ''candidate''" by simp
  have pl: "payload ?c = Json (JOther ''candidate 1'')" by simp
  note at_joined = candidate_applied_at_once [OF pc mt pl, of browser "[?o]"]
  from at_joined rej
  have step: "handleSignalingMessage browser ?c joined =
          joined\<lparr>error := Some ''Failed to handle signaling message''\<rparr>"
    by simp
  from at_joined rej
  have rest: "peerConnection (handleSignalingMessages browser [?o] (handleSignalingMessage browser ?c joined)) =
          peerConnection (handleSignalingMessages browser [?o] joined) \<and>
        error (handleSignalingMessages browser [?o] (handleSignalingMessage browser ?c joined)) \<noteq> None"
    by blast
  from pc rej step rest show ?thesis
    unfolding after by blast
qed

text \<open>
  C8 as stated fails with a peer connection that rejects a candidate while it has no
  remote description: the candidate that arrives before the offer sets the error and
  is not kept, and after the offer has been applied the error is still there and the
  connection has no candidate.
\<close>

theorem early_candidate_dropped:
  "error early_candidate = Some ''Failed to handle signaling message'' \<and>
   peerConnection early_candidate = peerConnection joined \<and>
   error offer_after_candidate = Some ''Failed to handle signaling message'' \<and>
   map_option remoteCandidates (peerConnection offer_after_candidate) = Some []"
  by (simp add: offer_after_candidate_def early_candidate_def joined_eq handleSignalingMessage_def
      browser_def handling_failed_def useWebRTC_def new_RTCPeerConnection_def
      sendSignalingMessage_def API_BASE_def)

subsection \<open>C9: cleanup and the received files\<close>

text \<open>C9.  After \<open>cleanup\<close> the list of received files is empty, whatever it held before.\<close>

theorem cleanup_discards_receivedFiles:
  "receivedFiles (cleanup st) = []"
  by (simp add: cleanup_def Let_def)

subsection \<open>C10: joining a session\<close>

text \<open>
  C10, as the code has it.  For every code, \<open>joinSession\<close> returns the code, makes it the
  session id, sets \<open>isConnecting\<close>, clears the error and issues no request to the
  relay.  When the code is not the empty string it starts a new polling interval and
  keeps it in \<open>pollingInterval\<close>; when the code is the empty string no interval is
  started.
\<close>

theorem joinSession_adopts_code:
  "fst (joinSession code st) = Inr code \<and>
   sessionId (snd (joinSession code st)) = Some code \<and>
   isConnecting (snd (joinSession code st)) = True \<and>
   error (snd (joinSession code st)) = None \<and>
   requests (snd (joinSession code st)) = requests st \<and>
   pollingInterval (snd (joinSession code st)) =
     (if code = [] then pollingInterval st else Some (Timeout (nextTimer st))) \<and>
   timers (snd (joinSession code st)) =
     (if code = [] then timers st else timers st @ [Timeout (nextTimer st)])"
  by (simp add: joinSession_def startPolling_def no_session_def initializePeerConnection_def)

text \<open>C10 as stated fails at the empty code: no polling interval is started.\<close>

theorem joinSession_empty_code_no_polling:
  "timers (snd (joinSession [] useWebRTC)) = [] \<and>
   pollingInterval (snd (joinSession [] useWebRTC)) = None"
  by (simp add: joinSession_def startPolling_def no_session_def initializePeerConnection_def useWebRTC_def)

end
